theory Spec2Isabelle
  imports Complex_Main "HOL-Library.AList" "HOL-Library.Multiset" "HOL-Library.Product_Lexorder"
begin

section \<open>numpy floats\<close>

text \<open>
  The fitter of \<^verbatim>\<open>exotic/api/nested_linear_fitter.py\<close> computes on numpy float64 arrays.
  The embedding idealises the finite float64 values as reals with exact arithmetic
  (no rounding error, no overflow, no signed zero) and keeps the three non-finite values
  apart, because numpy does not raise on a division by zero: it warns, yields
  \<^verbatim>\<open>inf\<close>, \<^verbatim>\<open>-inf\<close> or \<^verbatim>\<open>nan\<close>, and goes on.
  The caller's arrays (timestamps, uncertainties, bounds, prior) are finite.
\<close>

datatype npfloat = Fin real | PosInf | NegInf | NaN

fun np_sgn :: "npfloat \<Rightarrow> real" where
  "np_sgn (Fin a) = sgn a"
| "np_sgn PosInf = 1"
| "np_sgn NegInf = - 1"
| "np_sgn NaN = 0"

fun np_neg :: "npfloat \<Rightarrow> npfloat" where
  "np_neg (Fin a) = Fin (- a)"
| "np_neg PosInf = NegInf"
| "np_neg NegInf = PosInf"
| "np_neg NaN = NaN"

fun np_add :: "npfloat \<Rightarrow> npfloat \<Rightarrow> npfloat" where
  "np_add (Fin a) (Fin b) = Fin (a + b)"
| "np_add NaN _ = NaN"
| "np_add _ NaN = NaN"
| "np_add PosInf NegInf = NaN"
| "np_add NegInf PosInf = NaN"
| "np_add PosInf _ = PosInf"
| "np_add _ PosInf = PosInf"
| "np_add NegInf _ = NegInf"
| "np_add _ NegInf = NegInf"

definition np_sub :: "npfloat \<Rightarrow> npfloat \<Rightarrow> npfloat" where
  "np_sub a b = np_add a (np_neg b)"

fun np_mul :: "npfloat \<Rightarrow> npfloat \<Rightarrow> npfloat" where
  "np_mul (Fin a) (Fin b) = Fin (a * b)"
| "np_mul NaN _ = NaN"
| "np_mul _ NaN = NaN"
| "np_mul a b =
     (let s = np_sgn a * np_sgn b
      in if s = 0 then NaN else if 0 < s then PosInf else NegInf)"

text \<open>
  True division. A finite value over zero is the one place where exact arithmetic on
  finite values leaves the finite range (the zero divisor is taken as \<^verbatim>\<open>+0.0\<close>).
\<close>

fun np_div :: "npfloat \<Rightarrow> npfloat \<Rightarrow> npfloat" where
  "np_div (Fin a) (Fin b) =
     (if b \<noteq> 0 then Fin (a / b)
      else if a = 0 then NaN else if 0 < a then PosInf else NegInf)"
| "np_div NaN _ = NaN"
| "np_div _ NaN = NaN"
| "np_div (Fin a) _ = Fin 0"
| "np_div a (Fin b) = (if b < 0 then np_neg a else a)"
| "np_div _ _ = NaN"

text \<open>
  \<^verbatim>\<open>np.round\<close> with no decimals rounds to the nearest integer and a tie to the even
  neighbour; the result is still a float.
\<close>

definition round_half_even :: "real \<Rightarrow> int" where
  "round_half_even x =
     (let f = \<lfloor>x\<rfloor>; d = x - of_int f
      in if d < 1 / 2 then f else if 1 / 2 < d then f + 1
         else if even f then f else f + 1)"

fun np_round :: "npfloat \<Rightarrow> npfloat" where
  "np_round (Fin a) = Fin (of_int (round_half_even a))"
| "np_round x = x"

definition np_sum :: "npfloat list \<Rightarrow> npfloat" where
  "np_sum xs = foldl np_add (Fin 0) xs"

section \<open>Python errors and dictionaries\<close>

text \<open>
  The exceptions the modelled statements can raise; \<open>SamplerError\<close> stands for any
  exception raised inside the external nested sampler.
\<close>

datatype py_error = AttributeError | KeyError string | IndexError | ValueError | SamplerError

text \<open>
  \<^verbatim>\<open>bounds\<close> and \<^verbatim>\<open>prior\<close> are dictionaries from a parameter name to a pair
  (\<^verbatim>\<open>[low, high]\<close> for a bound, \<^verbatim>\<open>(mean, stdev)\<close> for a prior). A Python dict
  keeps insertion order and \<^verbatim>\<open>fit_nested\<close> depends on it, so a dictionary is an
  association list; its keys are distinct.
\<close>

type_synonym pydict = "(string \<times> (real \<times> real)) list"

definition getitem :: "pydict \<Rightarrow> string \<Rightarrow> py_error + (real \<times> real)" where
  "getitem d k = (case map_of d k of None \<Rightarrow> Inl (KeyError k) | Some v \<Rightarrow> Inr v)"

text \<open>\<^verbatim>\<open>np.mean\<close> of a two-element \<^verbatim>\<open>[low, high]\<close>.\<close>

definition np_mean2 :: "real \<times> real \<Rightarrow> real" where
  "np_mean2 p = (fst p + snd p) / 2"

section \<open>Epoch mapping\<close>

text \<open>
  \<^verbatim>\<open>self.epochs = np.round((self.data - np.mean(self.bounds['b']))/np.mean(self.bounds['m']))\<close>
  The left operand is evaluated first, so a missing \<^verbatim>\<open>'b'\<close> is reported before a
  missing \<^verbatim>\<open>'m'\<close>.
\<close>

definition fit_epochs :: "pydict \<Rightarrow> real list \<Rightarrow> py_error + npfloat list" where
  "fit_epochs bnds ts =
     (case getitem bnds ''b'' of
        Inl e \<Rightarrow> Inl e
      | Inr bb \<Rightarrow>
         (case getitem bnds ''m'' of
            Inl e \<Rightarrow> Inl e
          | Inr bm \<Rightarrow>
              Inr (map (\<lambda>t. np_round (np_div (Fin (t - np_mean2 bb)) (Fin (np_mean2 bm)))) ts)))"


section \<open>The likelihood and the prior transform\<close>

text \<open>
  Elementwise arithmetic on two one-dimensional arrays follows numpy's broadcasting:
  equal lengths pair up, a one-element array is stretched, anything else raises
  \<^verbatim>\<open>ValueError\<close>.
\<close>

definition broadcast2 :: "('a \<Rightarrow> 'b \<Rightarrow> 'c) \<Rightarrow> 'a list \<Rightarrow> 'b list \<Rightarrow> py_error + 'c list" where
  "broadcast2 f xs ys =
     (if length xs = length ys then Inr (map2 f xs ys)
      else if length xs = 1 then Inr (map (f (hd xs)) ys)
      else if length ys = 1 then Inr (map (\<lambda>x. f x (hd ys)) xs)
      else Inl ValueError)"

text \<open>
  \<^verbatim>\<open>
  def loglike(pars):
      model = pars[0]*self.epochs + pars[1]
      return -0.5 * np.sum( ((self.data-model)/self.dataerr)**2 )
  \<close>
  The closure's captured \<^verbatim>\<open>self.epochs\<close>, \<^verbatim>\<open>self.data\<close> and
  \<^verbatim>\<open>self.dataerr\<close> are the first three arguments.
\<close>

definition loglike :: "npfloat list \<Rightarrow> real list \<Rightarrow> real list \<Rightarrow> real list \<Rightarrow> py_error + npfloat" where
  "loglike eps dat err pars =
     (if length pars < 2 then Inl IndexError
      else
        let model = map (\<lambda>e. np_add (np_mul (Fin (pars ! 0)) e) (Fin (pars ! 1))) eps
        in case broadcast2 (\<lambda>d m. np_sub (Fin d) m) dat model of
             Inl e \<Rightarrow> Inl e
           | Inr diff \<Rightarrow>
               (case broadcast2 (\<lambda>x s. np_div x (Fin s)) diff err of
                  Inl e \<Rightarrow> Inl e
                | Inr q \<Rightarrow> Inr (np_mul (Fin (- (1 / 2))) (np_sum (map (\<lambda>x. np_mul x x) q)))))"

text \<open>
  \<^verbatim>\<open>
  freekeys = list(self.bounds.keys())
  boundarray = np.array([self.bounds[k] for k in freekeys])
  bounddiff = np.diff(boundarray,1).reshape(-1)
  def prior_transform(upars):
      return (boundarray[:,0] + bounddiff*upars)
  \<close>
  For an empty dict \<^verbatim>\<open>np.array([])\<close> is one-dimensional and \<^verbatim>\<open>boundarray[:,0]\<close>
  raises \<^verbatim>\<open>IndexError\<close>.
\<close>

definition boundarray :: "pydict \<Rightarrow> (real \<times> real) list" where
  "boundarray bnds = map snd bnds"

definition bounddiff :: "pydict \<Rightarrow> real list" where
  "bounddiff bnds = map (\<lambda>(lo, hi). hi - lo) (boundarray bnds)"

definition prior_transform :: "pydict \<Rightarrow> real list \<Rightarrow> py_error + real list" where
  "prior_transform bnds upars =
     (if bnds = [] then Inl IndexError
      else case broadcast2 (\<lambda>d u. d * u) (bounddiff bnds) upars of
             Inl e \<Rightarrow> Inl e
           | Inr scaled \<Rightarrow> broadcast2 (\<lambda>lo x. lo + x) (map fst (boundarray bnds)) scaled)"

section \<open>The fitter object and the nested sampler\<close>

text \<open>
  The nested sampler is an external capability. What the fitter hands to it is a
  \<open>sampler_call\<close>: the arguments of
  \<^verbatim>\<open>ReactiveNestedSampler(freekeys, loglike, prior_transform).run(max_ncalls=4e5,
  min_num_live_points=420, show_status=False)\<close>.
  What the fitter reads back is a \<open>sampler_results\<close>: the entries
  \<^verbatim>\<open>['maximum_likelihood']['point']\<close>, \<^verbatim>\<open>['posterior']['stdev']\<close>,
  \<^verbatim>\<open>['posterior']['errlo']\<close> and \<^verbatim>\<open>['posterior']['errup']\<close> of its result.
  One run of the sampler is a function from the call to its result or its exception.
\<close>

record sampler_call =
  paramnames :: "string list"
  loglike_fn :: "real list \<Rightarrow> py_error + npfloat"
  transform_fn :: "real list \<Rightarrow> py_error + real list"
  max_ncalls :: real
  min_num_live_points :: int
  show_status :: bool

record sampler_results =
  maximum_likelihood_point :: "real list"
  posterior_stdev :: "real list"
  posterior_errlo :: "real list"
  posterior_errup :: "real list"

type_synonym nested_sampler = "sampler_call \<Rightarrow> py_error + sampler_results"

text \<open>
  The attributes of a \<^verbatim>\<open>linear_fitter\<close> object. \<^verbatim>\<open>__init__\<close> sets the first four
  and \<^verbatim>\<open>fit_nested\<close> the others; before the fit they hold empty placeholders.
\<close>

record linear_fitter =
  data :: "real list"
  dataerr :: "real list"
  bounds :: pydict
  prior :: pydict
  epochs :: "npfloat list"
  results :: sampler_results
  errors :: "(string \<times> real) list"
  quantiles :: "(string \<times> (real \<times> real)) list"
  parameters :: "(string \<times> real) list"
  model :: "npfloat list"
  residuals :: "npfloat list"

text \<open>
  \<^verbatim>\<open>fit_nested\<close> up to the sampler call (lines 88 to 103): the epochs and the call.
\<close>

definition fit_prepare :: "linear_fitter \<Rightarrow> py_error + (npfloat list \<times> sampler_call)" where
  "fit_prepare self =
     (let freekeys = map fst (bounds self)
      in case fit_epochs (bounds self) (data self) of
           Inl e \<Rightarrow> Inl e
         | Inr eps \<Rightarrow>
             Inr (eps,
               \<lparr>paramnames = freekeys,
                loglike_fn = loglike eps (data self) (dataerr self),
                transform_fn = prior_transform (bounds self),
                max_ncalls = 400000,
                min_num_live_points = 420,
                show_status = False\<rparr>))"

text \<open>
  \<^verbatim>\<open>
  for i, key in enumerate(freekeys):
      self.parameters[key] = self.results['maximum_likelihood']['point'][i]
      self.errors[key] = self.results['posterior']['stdev'][i]
      self.quantiles[key] = [self.results['posterior']['errlo'][i],
                             self.results['posterior']['errup'][i]]
  \<close>
\<close>

fun collect_results ::
  "sampler_results \<Rightarrow> (nat \<times> string) list \<Rightarrow>
   (string \<times> real) list \<times> (string \<times> real) list \<times> (string \<times> (real \<times> real)) list \<Rightarrow>
   py_error + ((string \<times> real) list \<times> (string \<times> real) list \<times> (string \<times> (real \<times> real)) list)"
where
  "collect_results res [] acc = Inr acc"
| "collect_results res ((i, key) # rest) (pars, errs, quants) =
     (if i < length (maximum_likelihood_point res) \<and> i < length (posterior_stdev res)
         \<and> i < length (posterior_errlo res) \<and> i < length (posterior_errup res)
      then collect_results res rest
             (AList.update key (maximum_likelihood_point res ! i) pars,
              AList.update key (posterior_stdev res ! i) errs,
              AList.update key (posterior_errlo res ! i, posterior_errup res ! i) quants)
      else Inl IndexError)"

definition fit_nested :: "nested_sampler \<Rightarrow> linear_fitter \<Rightarrow> py_error + linear_fitter" where
  "fit_nested sampler self =
     (case fit_prepare self of
        Inl e \<Rightarrow> Inl e
      | Inr (eps, call) \<Rightarrow>
          (case sampler call of
             Inl e \<Rightarrow> Inl e
           | Inr res \<Rightarrow>
               (case collect_results res (zip [0..<length (paramnames call)] (paramnames call))
                       ([], [], []) of
                  Inl e \<Rightarrow> Inl e
                | Inr (pars, errs, quants) \<Rightarrow>
                    (case map_of pars ''m'' of
                       None \<Rightarrow> Inl (KeyError ''m'')
                     | Some m \<Rightarrow>
                         (case map_of pars ''b'' of
                            None \<Rightarrow> Inl (KeyError ''b'')
                          | Some b \<Rightarrow>
                              (let mdl = map (\<lambda>e. np_add (np_mul e (Fin m)) (Fin b)) eps
                               in Inr (self\<lparr>epochs := eps, results := res, errors := errs,
                                        quantiles := quants, parameters := pars, model := mdl,
                                        residuals := map2 (\<lambda>d m. np_sub (Fin d) m) (data self) mdl\<rparr>)))))))"

text \<open>
  \<^verbatim>\<open>
  def __init__(self, data, dataerr, bounds=None, prior=None):
      self.data = data
      self.dataerr = dataerr
      self.bounds = bounds
      self.prior = prior.copy()
      if bounds is None:
          self.bounds = {
              'm':[prior['m'][0]-3*prior['m'][1],prior['m'][0]+3*prior['m'][1]],
              'b':[prior['b'][0]-3*prior['b'][1],prior['b'][0]+3*prior['b'][1]]
          }
      self.fit_nested()
  \<close>
  \<^verbatim>\<open>None\<close> has no \<^verbatim>\<open>copy\<close>: the fourth statement raises \<^verbatim>\<open>AttributeError\<close>
  when the prior is omitted.
\<close>

definition bounds_from_prior :: "pydict \<Rightarrow> py_error + pydict" where
  "bounds_from_prior pri =
     (case getitem pri ''m'' of
        Inl e \<Rightarrow> Inl e
      | Inr pm \<Rightarrow>
          (case getitem pri ''b'' of
             Inl e \<Rightarrow> Inl e
           | Inr pb \<Rightarrow>
               Inr [(''m'', (fst pm - 3 * snd pm, fst pm + 3 * snd pm)),
                    (''b'', (fst pb - 3 * snd pb, fst pb + 3 * snd pb))]))"

definition unfitted :: "real list \<Rightarrow> real list \<Rightarrow> pydict \<Rightarrow> pydict \<Rightarrow> linear_fitter" where
  "unfitted dat err bnds pri =
     \<lparr>data = dat, dataerr = err, bounds = bnds, prior = pri, epochs = [],
      results = \<lparr>maximum_likelihood_point = [], posterior_stdev = [],
                 posterior_errlo = [], posterior_errup = []\<rparr>,
      errors = [], quantiles = [], parameters = [], model = [], residuals = []\<rparr>"

definition linear_fitter_init ::
  "nested_sampler \<Rightarrow> real list \<Rightarrow> real list \<Rightarrow> pydict option \<Rightarrow> pydict option \<Rightarrow>
   py_error + linear_fitter"
where
  "linear_fitter_init sampler dat err bnds pri =
     (case pri of
        None \<Rightarrow> Inl AttributeError
      | Some p \<Rightarrow>
          (case (case bnds of None \<Rightarrow> bounds_from_prior p | Some b \<Rightarrow> Inr b) of
             Inl e \<Rightarrow> Inl e
           | Inr b \<Rightarrow> fit_nested sampler (unfitted dat err b p)))"

section \<open>The periodogram search: frequency range\<close>

text \<open>
  \<^verbatim>\<open>plot_periodogram\<close> reads the epochs, the residuals and the uncertainties of a
  finished fit. This part of the model takes them as finite values (real lists); the
  spectral estimator and the weighted least squares routine are external, so the
  periods they select (\<^verbatim>\<open>per\<close>, \<^verbatim>\<open>per2\<close>) and the detrended residuals are
  arguments.
  \<^verbatim>\<open>
  si = np.argsort(self.epochs)
  minper = max(2,2 * np.diff(self.epochs[si]).min())
  maxper = (np.max(self.epochs) - np.min(self.epochs))*3.
  ls = LombScargle(self.epochs, self.residuals, dy=self.dataerr)
  freq,power = ls.autopower(maximum_frequency=1./minper, minimum_frequency=1./maxper, nyquist_factor=2)
  ...
  maxper = 50
  freq2,power2 = LombScargle(self.epochs, residuals, dy=self.dataerr).autopower(
      minimum_frequency=1./maxper, maximum_frequency=1./minper, nyquist_factor=2)
  \<close>
  The minimum and the maximum of an empty array raise \<^verbatim>\<open>ValueError\<close>.
\<close>

definition argsort :: "real list \<Rightarrow> nat list" where
  "argsort xs = map snd (sort_key fst (zip xs [0..<length xs]))"

definition np_diff :: "real list \<Rightarrow> real list" where
  "np_diff xs = map2 (\<lambda>a b. b - a) xs (tl xs)"

definition np_min :: "real list \<Rightarrow> py_error + real" where
  "np_min xs = (case xs of [] \<Rightarrow> Inl ValueError | x # rest \<Rightarrow> Inr (fold min rest x))"

definition np_max :: "real list \<Rightarrow> py_error + real" where
  "np_max xs = (case xs of [] \<Rightarrow> Inl ValueError | x # rest \<Rightarrow> Inr (fold max rest x))"

definition minper_of :: "real list \<Rightarrow> py_error + real" where
  "minper_of eps =
     (let si = argsort eps
      in case np_min (np_diff (map ((!) eps) si)) of
           Inl e \<Rightarrow> Inl e
         | Inr d \<Rightarrow> Inr (max 2 (2 * d)))"

definition maxper_of :: "real list \<Rightarrow> py_error + real" where
  "maxper_of eps =
     (case np_max eps of
        Inl e \<Rightarrow> Inl e
      | Inr hi \<Rightarrow> (case np_min eps of Inl e \<Rightarrow> Inl e | Inr lo \<Rightarrow> Inr ((hi - lo) * 3)))"

record autopower_args =
  minimum_frequency :: npfloat
  maximum_frequency :: npfloat
  nyquist_factor :: int

definition first_pass_frequencies :: "real list \<Rightarrow> py_error + autopower_args" where
  "first_pass_frequencies eps =
     (case minper_of eps of
        Inl e \<Rightarrow> Inl e
      | Inr minper \<Rightarrow>
          (case maxper_of eps of
             Inl e \<Rightarrow> Inl e
           | Inr maxper \<Rightarrow>
               Inr \<lparr>minimum_frequency = np_div (Fin 1) (Fin maxper),
                    maximum_frequency = np_div (Fin 1) (Fin minper),
                    nyquist_factor = 2\<rparr>))"

definition second_pass_frequencies :: "real list \<Rightarrow> py_error + autopower_args" where
  "second_pass_frequencies eps =
     (case minper_of eps of
        Inl e \<Rightarrow> Inl e
      | Inr minper \<Rightarrow>
          (case maxper_of eps of
             Inl e \<Rightarrow> Inl e
           | Inr _ \<Rightarrow>
               (let maxper = 50
                in Inr \<lparr>minimum_frequency = np_div (Fin 1) (Fin maxper),
                        maximum_frequency = np_div (Fin 1) (Fin minper),
                        nyquist_factor = 2\<rparr>)))"

section \<open>The periodogram search: phase folding and binning\<close>

text \<open>
  \<^verbatim>\<open>
  newphase = self.epochs/per % 1
  ...
  si = np.argsort(newphase)
  bins = np.linspace(0,1,8)
  binned = np.zeros(len(bins))
  binned_std = np.zeros(len(bins))
  for i in range(0,len(bins)):
      mask = np.digitize(newphase[si], bins)==i
      if mask.sum() > 1:
          binned[i] = np.mean(self.residuals[si][mask])
          binned_std[i] = np.std(self.residuals[si][mask])
      elif mask.sum() == 1:
          binned[i] = self.residuals[si][mask]
          binned_std[i] = self.dataerr[si][mask]
      else:
          binned[i] = np.nan
          binned_std[i] = np.nan
  \<close>
  The second pass (lines 464 to 481) is the same text with \<^verbatim>\<open>per2\<close> for
  \<^verbatim>\<open>per\<close> and the detrended \<^verbatim>\<open>residuals\<close> for \<^verbatim>\<open>self.residuals\<close>.

  A float modulo 1 is the fractional part; of a non-finite value it is \<^verbatim>\<open>nan\<close>.
  \<^verbatim>\<open>np.digitize(x, bins)\<close> with increasing edges is the number of edges not above
  \<^verbatim>\<open>x\<close>, and \<^verbatim>\<open>len(bins)\<close> for \<^verbatim>\<open>nan\<close>. \<^verbatim>\<open>np.argsort\<close> puts \<^verbatim>\<open>nan\<close> last; the
  order it gives to equal keys is not specified by numpy (a stable order is taken here).
  \<^verbatim>\<open>np.std\<close> has \<^verbatim>\<open>ddof=0\<close>: the divisor is the number of values.
\<close>

fun np_mod1 :: "npfloat \<Rightarrow> npfloat" where
  "np_mod1 (Fin x) = Fin (x - of_int \<lfloor>x\<rfloor>)"
| "np_mod1 _ = NaN"

definition phase_fold :: "real list \<Rightarrow> real \<Rightarrow> npfloat list" where
  "phase_fold eps per = map (\<lambda>e. np_mod1 (np_div (Fin e) (Fin per))) eps"

definition np_linspace :: "real \<Rightarrow> real \<Rightarrow> nat \<Rightarrow> real list" where
  "np_linspace start stop num =
     map (\<lambda>i. start + real i * ((stop - start) / real (num - 1))) [0..<num]"

fun np_digitize :: "npfloat \<Rightarrow> real list \<Rightarrow> nat" where
  "np_digitize (Fin x) bins = length (filter (\<lambda>b. b \<le> x) bins)"
| "np_digitize NegInf bins = 0"
| "np_digitize _ bins = length bins"

fun np_sortkey :: "npfloat \<Rightarrow> nat \<times> real" where
  "np_sortkey NegInf = (0, 0)"
| "np_sortkey (Fin x) = (1, x)"
| "np_sortkey PosInf = (2, 0)"
| "np_sortkey NaN = (3, 0)"

definition np_argsort :: "npfloat list \<Rightarrow> nat list" where
  "np_argsort xs = map snd (sort_key (\<lambda>p. np_sortkey (fst p)) (zip xs [0..<length xs]))"

text \<open>Indexing with an index array: every index must be in range.\<close>

definition take_idx :: "'a list \<Rightarrow> nat list \<Rightarrow> py_error + 'a list" where
  "take_idx xs idx =
     (if list_all (\<lambda>i. i < length xs) idx then Inr (map ((!) xs) idx) else Inl IndexError)"

text \<open>Indexing with a boolean mask of the array's length.\<close>

definition select :: "bool list \<Rightarrow> 'a list \<Rightarrow> 'a list" where
  "select msk xs = map snd (filter fst (zip msk xs))"

definition np_mean :: "real list \<Rightarrow> real" where
  "np_mean xs = sum_list xs / real (length xs)"

definition np_std :: "real list \<Rightarrow> real" where
  "np_std xs = sqrt (np_mean (map (\<lambda>x. \<bar>x - np_mean xs\<bar>\<^sup>2) xs))"

text \<open>One turn of the loop: the pair written to \<^verbatim>\<open>binned[i]\<close> and \<^verbatim>\<open>binned_std[i]\<close>.\<close>

definition bin_stats ::
  "nat list \<Rightarrow> real list \<Rightarrow> npfloat list \<Rightarrow> real list \<Rightarrow> real list \<Rightarrow> nat \<Rightarrow>
   py_error + (npfloat \<times> npfloat)"
where
  "bin_stats si bins newphase resid err i =
     (let msk = map (\<lambda>p. np_digitize p bins = i) (map ((!) newphase) si);
          n = length (filter id msk)
      in if 1 < n then
           (case take_idx resid si of
              Inl e \<Rightarrow> Inl e
            | Inr rs \<Rightarrow> Inr (Fin (np_mean (select msk rs)), Fin (np_std (select msk rs))))
         else if n = 1 then
           (case take_idx resid si of
              Inl e \<Rightarrow> Inl e
            | Inr rs \<Rightarrow>
                (case take_idx err si of
                   Inl e \<Rightarrow> Inl e
                 | Inr es \<Rightarrow> Inr (Fin (hd (select msk rs)), Fin (hd (select msk es)))))
         else Inr (NaN, NaN))"

fun bin_loop ::
  "nat list \<Rightarrow> nat list \<Rightarrow> real list \<Rightarrow> npfloat list \<Rightarrow> real list \<Rightarrow> real list \<Rightarrow>
   npfloat list \<times> npfloat list \<Rightarrow> py_error + (npfloat list \<times> npfloat list)"
where
  "bin_loop [] si bins newphase resid err acc = Inr acc"
| "bin_loop (i # rest) si bins newphase resid err (binned, binned_std) =
     (case bin_stats si bins newphase resid err i of
        Inl e \<Rightarrow> Inl e
      | Inr (m, s) \<Rightarrow>
          bin_loop rest si bins newphase resid err (binned[i := m], binned_std[i := s]))"

definition bin_folded ::
  "npfloat list \<Rightarrow> real list \<Rightarrow> real list \<Rightarrow> py_error + (npfloat list \<times> npfloat list)"
where
  "bin_folded newphase resid err =
     (let si = np_argsort newphase;
          bins = np_linspace 0 1 8;
          binned = replicate (length bins) (Fin 0);
          binned_std = replicate (length bins) (Fin 0)
      in bin_loop [0..<length bins] si bins newphase resid err (binned, binned_std))"

text \<open>
  The two passes: the first folds at \<^verbatim>\<open>per\<close> and bins \<^verbatim>\<open>self.residuals\<close>, the second
  folds at \<^verbatim>\<open>per2\<close> and bins the detrended residuals.
\<close>

definition first_pass_bins ::
  "real list \<Rightarrow> real \<Rightarrow> real list \<Rightarrow> real list \<Rightarrow> py_error + (npfloat list \<times> npfloat list)"
where
  "first_pass_bins eps per resid err = bin_folded (phase_fold eps per) resid err"

definition second_pass_bins ::
  "real list \<Rightarrow> real \<Rightarrow> real list \<Rightarrow> real list \<Rightarrow> py_error + (npfloat list \<times> npfloat list)"
where
  "second_pass_bins eps per2 detrended err = bin_folded (phase_fold eps per2) detrended err"

section \<open>Notions of the specification\<close>

text \<open>
  The unit cube \<open>[0,1]\<^sup>k\<close> and the box of the bounds, as sets of vectors; the points
  of a pass that fall into bin \<open>i\<close>; and the sample standard deviation with the divisor
  \<open>n - 1\<close>, which is what the specification's words name.
\<close>

definition unit_cube :: "nat \<Rightarrow> real list set" where
  "unit_cube k = {u. length u = k \<and> (\<forall>i<k. 0 \<le> u ! i \<and> u ! i \<le> 1)}"

definition param_box :: "pydict \<Rightarrow> real list set" where
  "param_box bnds =
     {p. length p = length bnds
         \<and> (\<forall>i<length bnds. fst (snd (bnds ! i)) \<le> p ! i \<and> p ! i \<le> snd (snd (bnds ! i)))}"

definition bin_members :: "npfloat list \<Rightarrow> nat \<Rightarrow> nat set" where
  "bin_members newphase i =
     {j. j < length newphase \<and> np_digitize (newphase ! j) (np_linspace 0 1 8) = i}"

definition sample_std :: "real list \<Rightarrow> real" where
  "sample_std xs = sqrt (sum_list (map (\<lambda>x. (x - np_mean xs)\<^sup>2) xs) / (real (length xs) - 1))"

text \<open>
  The specification's \<open>bounds.low + (bounds.high - bounds.low) * u\<close>, componentwise in
  the order of the keys.
\<close>

definition affine_map :: "pydict \<Rightarrow> real list \<Rightarrow> real list" where
  "affine_map bnds u =
     map (\<lambda>i. fst (snd (bnds ! i)) + (snd (snd (bnds ! i)) - fst (snd (bnds ! i))) * u ! i)
       [0..<length bnds]"

text \<open>
  The minimum spacing between sorted epochs and the epoch range
  (maximum epoch minus minimum epoch), as the specification words them.
\<close>

definition min_epoch_spacing :: "real list \<Rightarrow> real" where
  "min_epoch_spacing eps = Min ((\<lambda>i. sort eps ! Suc i - sort eps ! i) ` {i. Suc i < length eps})"

definition epoch_range :: "real list \<Rightarrow> real" where
  "epoch_range eps = Max (set eps) - Min (set eps)"

text \<open>
  The mean and the standard deviation with the divisor \<open>n\<close> of the residuals of a set
  of points, and what the binned summary of a pass has to hold: eight entries, and for
  each bin the pair named by the number of its points.
\<close>

definition bin_mean :: "real list \<Rightarrow> nat set \<Rightarrow> real" where
  "bin_mean resid B = (\<Sum>j\<in>B. resid ! j) / real (card B)"

definition bin_pop_std :: "real list \<Rightarrow> nat set \<Rightarrow> real" where
  "bin_pop_std resid B = sqrt ((\<Sum>j\<in>B. (resid ! j - bin_mean resid B)\<^sup>2) / real (card B))"

definition bin_summary ::
  "npfloat list \<Rightarrow> real list \<Rightarrow> real list \<Rightarrow> npfloat list \<times> npfloat list \<Rightarrow> bool"
where
  "bin_summary ph resid err out \<longleftrightarrow>
     length (fst out) = 8 \<and> length (snd out) = 8
     \<and> (\<forall>i<8.
          (bin_members ph i = {} \<longrightarrow> fst out ! i = NaN \<and> snd out ! i = NaN)
        \<and> (\<forall>j. bin_members ph i = {j} \<longrightarrow>
              fst out ! i = Fin (resid ! j) \<and> snd out ! i = Fin (err ! j))
        \<and> (2 \<le> card (bin_members ph i) \<longrightarrow>
              fst out ! i = Fin (bin_mean resid (bin_members ph i))
              \<and> snd out ! i = Fin (bin_pop_std resid (bin_members ph i))))"

section \<open>Example inputs\<close>

text \<open>A fitter object before the fit: three timestamps, period bounds around 5.\<close>

definition ex_fitter :: linear_fitter where
  "ex_fitter = unfitted [0, 5, 11] [1, 1, 2] [(''m'', (4, 6)), (''b'', (- 1, 1))] []"

text \<open>
  A stub for one run of the sampler: it returns the point \<open>(5, 0)\<close> whatever it is
  asked.
\<close>

definition ex_sampler :: nested_sampler where
  "ex_sampler call =
     Inr \<lparr>maximum_likelihood_point = [5, 0], posterior_stdev = [1 / 10, 1 / 5],
          posterior_errlo = [49 / 10, - (1 / 5)], posterior_errup = [51 / 10, 1 / 5]\<rparr>"

text \<open>A sampler run that raises.\<close>

definition failing_sampler :: nested_sampler where
  "failing_sampler call = Inl SamplerError"

text \<open>
  A sampler that refuses every call whose evaluation budget or live-point count is not
  the pair \<open>(4e5, 420)\<close>, and otherwise runs the given sampler.
\<close>

definition only_default_budget :: "nested_sampler \<Rightarrow> nested_sampler" where
  "only_default_budget sampler call =
     (if max_ncalls call = 400000 \<and> min_num_live_points call = 420 then sampler call
      else Inl SamplerError)"

section \<open>Rounding to the nearest integer\<close>

lemma round_half_even_cases:
  "round_half_even x = \<lfloor>x\<rfloor> \<and> x - of_int \<lfloor>x\<rfloor> \<le> 1 / 2
   \<or> round_half_even x = \<lfloor>x\<rfloor> + 1 \<and> 1 / 2 \<le> x - of_int \<lfloor>x\<rfloor>"
  by (simp add: round_half_even_def Let_def)

lemma round_half_even_dist: "\<bar>of_int (round_half_even x) - x\<bar> \<le> 1 / 2"
proof -
  have "of_int \<lfloor>x\<rfloor> \<le> x" and "x < of_int \<lfloor>x\<rfloor> + 1"
    by linarith+
  with round_half_even_cases [of x] show ?thesis
    by auto
qed

lemma round_half_even_nearest:
  "\<bar>of_int (round_half_even x) - x\<bar> \<le> \<bar>of_int k - x\<bar>"
proof (cases "k = round_half_even x")
  case True
  then show ?thesis by simp
next
  case False
  then have "1 \<le> \<bar>k - round_half_even x\<bar>"
    by linarith
  then have "(1::real) \<le> \<bar>of_int k - of_int (round_half_even x)\<bar>"
    by (metis of_int_1 of_int_abs of_int_diff of_int_le_iff)
  with round_half_even_dist [of x] show ?thesis
    by linarith
qed

lemma round_half_even_mono:
  assumes "x \<le> y"
  shows "round_half_even x \<le> round_half_even y"
proof (cases "\<lfloor>x\<rfloor> = \<lfloor>y\<rfloor>")
  case True
  with assms show ?thesis
    by (auto simp: round_half_even_def Let_def)
next
  case False
  with assms have "\<lfloor>x\<rfloor> + 1 \<le> \<lfloor>y\<rfloor>"
    using floor_mono [of x y] by linarith
  moreover have "round_half_even x \<le> \<lfloor>x\<rfloor> + 1"
    using round_half_even_cases [of x] by auto
  moreover have "\<lfloor>y\<rfloor> \<le> round_half_even y"
    using round_half_even_cases [of y] by auto
  ultimately show ?thesis
    by linarith
qed

section \<open>Epoch mapping: nearest integer and monotonicity\<close>

lemma fit_epochs_finite:
  assumes "map_of bnds ''m'' = Some bm" and "map_of bnds ''b'' = Some bb"
    and "np_mean2 bm \<noteq> 0"
  shows "fit_epochs bnds ts =
    Inr (map (\<lambda>t. Fin (of_int (round_half_even ((t - np_mean2 bb) / np_mean2 bm)))) ts)"
  using assms by (simp add: fit_epochs_def getitem_def)

text \<open>
  With a zero slope midpoint the quotient does not exist and numpy's division gives
  non-finite epochs.
\<close>

lemma fit_epochs_zero_slope:
  assumes "map_of bnds ''m'' = Some bm" and "map_of bnds ''b'' = Some bb"
    and "np_mean2 bm = 0"
  shows "fit_epochs bnds ts =
    Inr (map (\<lambda>t. if t = np_mean2 bb then NaN else if np_mean2 bb < t then PosInf else NegInf) ts)"
  using assms by (simp add: fit_epochs_def getitem_def)

lemma sorted_map_mono:
  assumes "sorted xs" and "\<And>x y. x \<le> y \<Longrightarrow> f x \<le> f y"
  shows "sorted (map f xs)"
  using assms by (induction xs) auto

text \<open>
  Claim C1. For every dataset and every bounds mapping with the keys \<^verbatim>\<open>'m'\<close> and
  \<^verbatim>\<open>'b'\<close>, the epoch of each timestamp is an integer nearest to
  \<open>(time - intercept) / slope\<close>, where slope and intercept are the midpoints of the
  bounds of \<^verbatim>\<open>'m'\<close> and \<^verbatim>\<open>'b'\<close>: no integer is closer to the quotient. The slope
  midpoint is not zero, so that the quotient exists (at a tie the even neighbour is taken).
\<close>

theorem epochs_nearest_integer:
  assumes "map_of bnds ''m'' = Some (mlo, mhi)" and "map_of bnds ''b'' = Some (blo, bhi)"
    and "(mlo + mhi) / 2 \<noteq> 0"
  shows "\<exists>ks::int list. fit_epochs bnds ts = Inr (map (\<lambda>k. Fin (of_int k)) ks)
      \<and> length ks = length ts
      \<and> (\<forall>i<length ts. \<forall>j::int.
            \<bar>of_int (ks ! i) - (ts ! i - (blo + bhi) / 2) / ((mlo + mhi) / 2)\<bar>
              \<le> \<bar>of_int j - (ts ! i - (blo + bhi) / 2) / ((mlo + mhi) / 2)\<bar>)"
proof -
  let ?q = "\<lambda>t. (t - (blo + bhi) / 2) / ((mlo + mhi) / 2)"
  let ?ks = "map (\<lambda>t. round_half_even (?q t)) ts"
  have "fit_epochs bnds ts = Inr (map (\<lambda>k. Fin (of_int k)) ?ks)"
    using fit_epochs_finite [OF assms(1,2), of ts] assms(3)
    by (simp add: np_mean2_def comp_def)
  moreover have "length ?ks = length ts"
    by simp
  moreover have "\<forall>i<length ts. \<forall>j::int.
      \<bar>of_int (?ks ! i) - ?q (ts ! i)\<bar> \<le> \<bar>of_int j - ?q (ts ! i)\<bar>"
    by (simp add: round_half_even_nearest)
  ultimately show ?thesis
    by blast
qed

theorem epochs_nearest_integer_witness:
  "map_of [(''m'', (4, 6)), (''b'', (- 1, 1))] ''m'' = Some (4::real, 6::real)
   \<and> map_of [(''m'', (4, 6)), (''b'', (- 1, 1))] ''b'' = Some (- 1::real, 1::real)
   \<and> (4 + 6) / 2 \<noteq> (0::real)
   \<and> (\<exists>ks::int list.
        fit_epochs [(''m'', (4, 6)), (''b'', (- 1, 1))] [0, 5, 25 / 2]
          = Inr (map (\<lambda>k. Fin (of_int k)) ks)
        \<and> length ks = length [0, 5, 25 / 2 :: real]
        \<and> (\<forall>i<length [0, 5, 25 / 2 :: real]. \<forall>j::int.
              \<bar>of_int (ks ! i) - ([0, 5, 25 / 2 :: real] ! i - (- 1 + 1) / 2) / ((4 + 6) / 2)\<bar>
                \<le> \<bar>of_int j - ([0, 5, 25 / 2 :: real] ! i - (- 1 + 1) / 2) / ((4 + 6) / 2)\<bar>))"
  using epochs_nearest_integer [of "[(''m'', (4, 6)), (''b'', (- 1, 1))]" 4 6 "- 1" 1 "[0, 5, 25 / 2]"]
  by simp

text \<open>
  Claim C9. For strictly increasing timestamps and a positive slope midpoint, the
  mapped epochs are integers in non-decreasing order (whatever the spacing of the
  timestamps).
\<close>

theorem epochs_monotone:
  assumes "map_of bnds ''m'' = Some (mlo, mhi)" and "map_of bnds ''b'' = Some (blo, bhi)"
    and "0 < (mlo + mhi) / 2" and "sorted_wrt (<) ts"
  shows "\<exists>ks::int list. fit_epochs bnds ts = Inr (map (\<lambda>k. Fin (of_int k)) ks)
      \<and> length ks = length ts \<and> sorted ks"
proof -
  let ?q = "\<lambda>t. (t - (blo + bhi) / 2) / ((mlo + mhi) / 2)"
  let ?ks = "map (\<lambda>t. round_half_even (?q t)) ts"
  have "fit_epochs bnds ts = Inr (map (\<lambda>k. Fin (of_int k)) ?ks)"
    using fit_epochs_finite [OF assms(1,2), of ts] assms(3)
    by (simp add: np_mean2_def comp_def)
  moreover have "sorted ts"
    using assms(4) by (simp add: strict_sorted_imp_sorted)
  then have "sorted ?ks"
  proof (rule sorted_map_mono)
    fix x y :: real
    assume "x \<le> y"
    then have "?q x \<le> ?q y"
      using assms(3) by (simp add: divide_right_mono)
    then show "round_half_even (?q x) \<le> round_half_even (?q y)"
      by (rule round_half_even_mono)
  qed
  ultimately show ?thesis
    by (intro exI [of _ ?ks]) simp
qed

theorem epochs_monotone_witness:
  "map_of [(''m'', (4, 6)), (''b'', (- 1, 1))] ''m'' = Some (4::real, 6::real)
   \<and> map_of [(''m'', (4, 6)), (''b'', (- 1, 1))] ''b'' = Some (- 1::real, 1::real)
   \<and> 0 < (4 + 6) / (2::real)
   \<and> sorted_wrt (<) [0, 5, 25 / 2, 18 :: real]
   \<and> (\<exists>ks::int list.
        fit_epochs [(''m'', (4, 6)), (''b'', (- 1, 1))] [0, 5, 25 / 2, 18]
          = Inr (map (\<lambda>k. Fin (of_int k)) ks)
        \<and> length ks = length [0, 5, 25 / 2, 18 :: real] \<and> sorted ks)"
  using epochs_monotone [of "[(''m'', (4, 6)), (''b'', (- 1, 1))]" 4 6 "- 1" 1 "[0, 5, 25 / 2, 18]"]
  by simp

section \<open>The likelihood\<close>

lemma foldl_np_add_Fin: "foldl np_add (Fin a) (map Fin xs) = Fin (a + sum_list xs)"
  by (induction xs arbitrary: a) (simp_all add: add.assoc)

lemma np_sum_Fin: "np_sum (map Fin xs) = Fin (sum_list xs)"
  by (simp add: np_sum_def foldl_np_add_Fin)

lemma loglike_terms:
  fixes ks :: "int list"
  assumes "length ks = length dat" and "length err = length dat"
    and "\<forall>s\<in>set err. s \<noteq> 0"
  shows "loglike (map (\<lambda>k. Fin (of_int k)) ks) dat err (m # b # rest) =
     Inr (Fin (- (1 / 2) *
       (\<Sum>i<length dat. ((dat ! i - (m * of_int (ks ! i) + b)) / err ! i)\<^sup>2)))"
proof -
  let ?n = "length dat"
  let ?model = "map (\<lambda>e. np_add (np_mul (Fin m) e) (Fin b)) (map (\<lambda>k. Fin (of_int k)) ks)"
  have model: "?model = map (\<lambda>i. Fin (m * of_int (ks ! i) + b)) [0..<?n]"
    using assms(1) by (intro nth_equalityI) simp_all
  have diff: "broadcast2 (\<lambda>d m. np_sub (Fin d) m) dat ?model
      = Inr (map (\<lambda>i. Fin (dat ! i - (m * of_int (ks ! i) + b))) [0..<?n])"
    unfolding model broadcast2_def
    by (auto intro!: nth_equalityI simp: np_sub_def)
  have quot: "broadcast2 (\<lambda>x s. np_div x (Fin s))
        (map (\<lambda>i. Fin (dat ! i - (m * of_int (ks ! i) + b))) [0..<?n]) err
      = Inr (map (\<lambda>i. Fin ((dat ! i - (m * of_int (ks ! i) + b)) / err ! i)) [0..<?n])"
    unfolding broadcast2_def using assms(2,3)
    by (auto intro!: nth_equalityI)
  have sq: "map (\<lambda>x. np_mul x x)
        (map (\<lambda>i. Fin ((dat ! i - (m * of_int (ks ! i) + b)) / err ! i)) [0..<?n])
      = map Fin (map (\<lambda>i. ((dat ! i - (m * of_int (ks ! i) + b)) / err ! i)\<^sup>2) [0..<?n])"
    by (simp add: power2_eq_square)
  have idx: "(m # b # rest) ! 0 = m" "(m # b # rest) ! 1 = b"
    by simp_all
  have len2: "\<not> length (m # b # rest) < 2"
    by simp
  have total: "sum_list (map (\<lambda>i. ((dat ! i - (m * of_int (ks ! i) + b)) / err ! i)\<^sup>2) [0..<?n])
      = (\<Sum>i<?n. ((dat ! i - (m * of_int (ks ! i) + b)) / err ! i)\<^sup>2)"
    by (simp add: interv_sum_list_conv_sum_set_nat atLeast0LessThan)
  show ?thesis
    unfolding loglike_def Let_def idx
    by (simp only: len2 if_False diff quot sq np_sum_Fin sum.case np_mul.simps(1) total)
qed

text \<open>
  Claim C2. For every parameter pair \<open>(m, b)\<close>, the log-likelihood handed to the
  nested sampler is \<open>-0.5 * (\<Sum>i. ((data\<^sub>i - (m * epoch\<^sub>i + b)) / dataerr\<^sub>i)\<^sup>2)\<close> over the
  mapped epochs. The function reads the slope from the first coordinate of the sampler's
  point and the intercept from the second. Stated where every term is finite: a non-zero
  slope midpoint, as many uncertainties as timestamps, none of them zero.
\<close>

theorem loglike_chi_square:
  assumes "map_of (bounds self) ''m'' = Some (mlo, mhi)"
    and "map_of (bounds self) ''b'' = Some (blo, bhi)"
    and "(mlo + mhi) / 2 \<noteq> 0"
    and "length (dataerr self) = length (data self)"
    and "\<forall>s\<in>set (dataerr self). s \<noteq> 0"
  shows "\<exists>ks call. fit_prepare self = Inr (map (\<lambda>k. Fin (of_int k)) ks, call)
      \<and> length ks = length (data self)
      \<and> (\<forall>m b rest. loglike_fn call (m # b # rest) =
            Inr (Fin (- (1 / 2) *
              (\<Sum>i<length (data self).
                 ((data self ! i - (m * of_int (ks ! i) + b)) / dataerr self ! i)\<^sup>2))))"
proof -
  let ?q = "\<lambda>t. (t - (blo + bhi) / 2) / ((mlo + mhi) / 2)"
  let ?ks = "map (\<lambda>t. round_half_even (?q t)) (data self)"
  let ?eps = "map (\<lambda>k. Fin (of_int k)) ?ks"
  let ?call = "\<lparr>paramnames = map fst (bounds self),
      loglike_fn = loglike ?eps (data self) (dataerr self),
      transform_fn = prior_transform (bounds self),
      max_ncalls = 400000, min_num_live_points = 420, show_status = False\<rparr>"
  have eps: "fit_epochs (bounds self) (data self) = Inr ?eps"
    using fit_epochs_finite [OF assms(1,2), of "data self"] assms(3)
    by (simp add: np_mean2_def comp_def)
  then have prep: "fit_prepare self = Inr (?eps, ?call)"
    by (simp add: fit_prepare_def)
  have len: "length ?ks = length (data self)"
    by simp
  have "loglike_fn ?call (m # b # rest) =
      Inr (Fin (- (1 / 2) *
        (\<Sum>i<length (data self).
           ((data self ! i - (m * of_int (?ks ! i) + b)) / dataerr self ! i)\<^sup>2)))"
    for m b rest
    using loglike_terms [OF len assms(4,5), of m b rest]
    by (simp only: sampler_call.simps)
  with prep len show ?thesis
    by blast
qed

theorem loglike_chi_square_witness:
  "map_of (bounds ex_fitter) ''m'' = Some (4, 6)
   \<and> map_of (bounds ex_fitter) ''b'' = Some (- 1, 1)
   \<and> (4 + 6) / 2 \<noteq> (0::real)
   \<and> length (dataerr ex_fitter) = length (data ex_fitter)
   \<and> list_all (\<lambda>s. s \<noteq> 0) (dataerr ex_fitter)
   \<and> (\<exists>ks call. fit_prepare ex_fitter = Inr (map (\<lambda>k. Fin (of_int k)) ks, call)
      \<and> length ks = length (data ex_fitter)
      \<and> (\<forall>m b rest. loglike_fn call (m # b # rest) =
            Inr (Fin (- (1 / 2) *
              (\<Sum>i<length (data ex_fitter).
                 ((data ex_fitter ! i - (m * of_int (ks ! i) + b)) / dataerr ex_fitter ! i)\<^sup>2)))))"
  using loglike_chi_square [of ex_fitter 4 6 "- 1" 1]
  by (simp add: ex_fitter_def unfitted_def)

section \<open>The prior transform\<close>

lemma prior_transform_affine:
  assumes "bnds \<noteq> []" and "length u = length bnds"
  shows "prior_transform bnds u = Inr (affine_map bnds u)"
proof -
  have "broadcast2 (\<lambda>d u. d * u) (bounddiff bnds) u
      = Inr (map (\<lambda>i. (snd (snd (bnds ! i)) - fst (snd (bnds ! i))) * u ! i) [0..<length bnds])"
    using assms(2)
    by (auto simp: broadcast2_def bounddiff_def boundarray_def case_prod_unfold
        intro!: nth_equalityI)
  moreover have "broadcast2 (\<lambda>lo x. lo + x) (map fst (boundarray bnds))
        (map (\<lambda>i. (snd (snd (bnds ! i)) - fst (snd (bnds ! i))) * u ! i) [0..<length bnds])
      = Inr (affine_map bnds u)"
    by (auto simp: broadcast2_def boundarray_def affine_map_def intro!: nth_equalityI)
  ultimately show ?thesis
    using assms(1) by (simp add: prior_transform_def)
qed

lemma affine_map_inj:
  assumes "\<forall>i<length bnds. fst (snd (bnds ! i)) < snd (snd (bnds ! i))"
  shows "inj_on (affine_map bnds) (unit_cube (length bnds))"
proof (rule inj_onI)
  fix u v
  assume u: "u \<in> unit_cube (length bnds)" and v: "v \<in> unit_cube (length bnds)"
    and eq: "affine_map bnds u = affine_map bnds v"
  show "u = v"
  proof (rule nth_equalityI)
    show "length u = length v"
      using u v by (simp add: unit_cube_def)
  next
    fix i
    assume "i < length u"
    then have i: "i < length bnds"
      using u by (simp add: unit_cube_def)
    from eq have "affine_map bnds u ! i = affine_map bnds v ! i"
      by simp
    with i have "(snd (snd (bnds ! i)) - fst (snd (bnds ! i))) * u ! i
        = (snd (snd (bnds ! i)) - fst (snd (bnds ! i))) * v ! i"
      by (simp add: affine_map_def)
    moreover have "snd (snd (bnds ! i)) - fst (snd (bnds ! i)) \<noteq> 0"
      using assms i by fastforce
    ultimately show "u ! i = v ! i"
      by simp
  qed
qed

lemma affine_map_into_box:
  assumes "\<forall>i<length bnds. fst (snd (bnds ! i)) < snd (snd (bnds ! i))"
    and "u \<in> unit_cube (length bnds)"
  shows "affine_map bnds u \<in> param_box bnds"
proof -
  have "fst (snd (bnds ! i)) \<le> affine_map bnds u ! i
      \<and> affine_map bnds u ! i \<le> snd (snd (bnds ! i))" if i: "i < length bnds" for i
  proof -
    let ?lo = "fst (snd (bnds ! i))" and ?hi = "snd (snd (bnds ! i))"
    have w: "0 < ?hi - ?lo"
      using assms(1) i by fastforce
    have x: "0 \<le> u ! i" "u ! i \<le> 1"
      using assms(2) i by (simp_all add: unit_cube_def)
    have "0 \<le> (?hi - ?lo) * u ! i"
      using w x(1) by simp
    moreover have "(?hi - ?lo) * u ! i \<le> (?hi - ?lo) * 1"
      using w x(2) by (intro mult_left_mono) simp_all
    ultimately show ?thesis
      using i by (simp add: affine_map_def)
  qed
  then show ?thesis
    by (simp add: param_box_def affine_map_def)
qed

lemma affine_map_onto_box:
  assumes "\<forall>i<length bnds. fst (snd (bnds ! i)) < snd (snd (bnds ! i))"
    and "p \<in> param_box bnds"
  shows "\<exists>u\<in>unit_cube (length bnds). affine_map bnds u = p"
proof -
  let ?u = "map (\<lambda>i. (p ! i - fst (snd (bnds ! i))) / (snd (snd (bnds ! i)) - fst (snd (bnds ! i))))
      [0..<length bnds]"
  have len: "length p = length bnds"
    using assms(2) by (simp add: param_box_def)
  have "0 \<le> ?u ! i \<and> ?u ! i \<le> 1" if i: "i < length bnds" for i
  proof -
    have "0 < snd (snd (bnds ! i)) - fst (snd (bnds ! i))"
      using assms(1) i by fastforce
    moreover have "fst (snd (bnds ! i)) \<le> p ! i" "p ! i \<le> snd (snd (bnds ! i))"
      using assms(2) i by (simp_all add: param_box_def)
    ultimately show ?thesis
      using i by simp
  qed
  then have "?u \<in> unit_cube (length bnds)"
    by (simp add: unit_cube_def)
  moreover have "affine_map bnds ?u = p"
  proof (rule nth_equalityI)
    show "length (affine_map bnds ?u) = length p"
      using len by (simp add: affine_map_def)
  next
    fix i
    assume "i < length (affine_map bnds ?u)"
    then have i: "i < length bnds"
      by (simp add: affine_map_def)
    then have "snd (snd (bnds ! i)) - fst (snd (bnds ! i)) \<noteq> 0"
      using assms(1) by fastforce
    with i show "affine_map bnds ?u ! i = p ! i"
      by (simp add: affine_map_def)
  qed
  ultimately show ?thesis
    by blast
qed

lemma affine_map_bij:
  assumes "\<forall>i<length bnds. fst (snd (bnds ! i)) < snd (snd (bnds ! i))"
  shows "bij_betw (affine_map bnds) (unit_cube (length bnds)) (param_box bnds)"
  unfolding bij_betw_def
proof
  show "inj_on (affine_map bnds) (unit_cube (length bnds))"
    using assms by (rule affine_map_inj)
  show "affine_map bnds ` unit_cube (length bnds) = param_box bnds"
    using affine_map_into_box [OF assms] affine_map_onto_box [OF assms]
    by (auto simp: image_iff)
qed

text \<open>
  Claim C3. For every vector \<open>u\<close> of the dimension of the bounds, the prior transform
  returns \<open>low + (high - low) * u\<close> componentwise in the order of the bound keys; and when
  \<open>low < high\<close> for every parameter, it is a bijection from the unit cube onto the box
  of the bounds.
\<close>

theorem prior_transform_bijection:
  assumes "bnds \<noteq> []"
  shows "(\<forall>u. length u = length bnds \<longrightarrow> prior_transform bnds u = Inr (affine_map bnds u))
    \<and> ((\<forall>i<length bnds. fst (snd (bnds ! i)) < snd (snd (bnds ! i))) \<longrightarrow>
         bij_betw (\<lambda>u. projr (prior_transform bnds u))
           (unit_cube (length bnds)) (param_box bnds))"
proof (intro conjI allI impI)
  fix u :: "real list"
  assume "length u = length bnds"
  with assms show "prior_transform bnds u = Inr (affine_map bnds u)"
    by (rule prior_transform_affine)
next
  assume lt: "\<forall>i<length bnds. fst (snd (bnds ! i)) < snd (snd (bnds ! i))"
  have "projr (prior_transform bnds u) = affine_map bnds u"
    if "u \<in> unit_cube (length bnds)" for u
    using that prior_transform_affine [OF assms, of u] by (simp add: unit_cube_def)
  then show "bij_betw (\<lambda>u. projr (prior_transform bnds u))
      (unit_cube (length bnds)) (param_box bnds)"
    using affine_map_bij [OF lt] by (simp cong: bij_betw_cong)
qed

theorem prior_transform_bijection_witness:
  "[(''m'', (4, 6)), (''b'', (- 1, 1))] \<noteq> ([] :: pydict)
   \<and> prior_transform [(''m'', (4, 6)), (''b'', (- 1, 1))] [1 / 2, 1 / 4] = Inr [5, - (1 / 2)]
   \<and> list_all (\<lambda>(k, lo, hi). lo < hi) [(''m'', (4, 6)), (''b'', (- 1, 1 :: real))]
   \<and> bij_betw (\<lambda>u. projr (prior_transform [(''m'', (4, 6)), (''b'', (- 1, 1))] u))
        (unit_cube 2) (param_box [(''m'', (4, 6)), (''b'', (- 1, 1))])"
proof -
  let ?b = "[(''m'', (4, 6)), (''b'', (- 1, 1))] :: pydict"
  have ne: "?b \<noteq> []"
    by simp
  have lt: "\<forall>i<length ?b. fst (snd (?b ! i)) < snd (snd (?b ! i))"
    by (simp add: less_Suc_eq all_conj_distrib)
  have "prior_transform ?b [1 / 2, 1 / 4] = Inr (affine_map ?b [1 / 2, 1 / 4])"
    using prior_transform_bijection [OF ne] by simp
  moreover have "affine_map ?b [1 / 2, 1 / 4] = [5, - (1 / 2)]"
    by (simp add: affine_map_def upt_rec)
  moreover have "bij_betw (\<lambda>u. projr (prior_transform ?b u)) (unit_cube (length ?b)) (param_box ?b)"
    using prior_transform_bijection [OF ne] lt by blast
  ultimately show ?thesis
    by (simp add: numeral_2_eq_2)
qed

section \<open>The constructor: prior, bounds and sampler settings\<close>

lemma fit_prepare_reaches_sampler:
  assumes "map_of (bounds self) ''b'' \<noteq> None" and "map_of (bounds self) ''m'' \<noteq> None"
  shows "\<exists>eps call. fit_prepare self = Inr (eps, call)"
  using assms by (auto simp: fit_prepare_def fit_epochs_def getitem_def)

text \<open>
  Claim C8. With explicit bounds the fitter can be constructed with the prior omitted.
  The code does not do this: \<^verbatim>\<open>self.prior = prior.copy()\<close> is reached first and
  raises \<^verbatim>\<open>AttributeError\<close> for \<^verbatim>\<open>prior=None\<close>, whatever the other arguments are.
\<close>

theorem prior_none_attribute_error:
  "linear_fitter_init sampler dat err bnds None = Inl AttributeError"
  by (simp add: linear_fitter_init_def)

theorem prior_none_example:
  "linear_fitter_init ex_sampler [0, 5, 11] [1, 1, 2]
     (Some [(''m'', (4, 6)), (''b'', (- 1, 1))]) None = Inl AttributeError"
  by (rule prior_none_attribute_error)

text \<open>
  Claim C6, as amended. The bounds are not validated and no \<^verbatim>\<open>InvalidBounds\<close> failure
  exists: a bounds mapping without the key \<^verbatim>\<open>'b'\<close> raises \<^verbatim>\<open>KeyError('b')\<close>, one with
  \<^verbatim>\<open>'b'\<close> but without \<^verbatim>\<open>'m'\<close> raises \<^verbatim>\<open>KeyError('m')\<close>, and every mapping with both
  keys, whatever the order of low and high, reaches the sampler call (a sampler run that
  raises is what the constructor then reports).
\<close>

theorem bounds_not_validated:
  "(map_of bnds ''b'' = None \<longrightarrow>
      linear_fitter_init sampler dat err (Some bnds) (Some pri) = Inl (KeyError ''b''))
   \<and> (map_of bnds ''b'' \<noteq> None \<and> map_of bnds ''m'' = None \<longrightarrow>
      linear_fitter_init sampler dat err (Some bnds) (Some pri) = Inl (KeyError ''m''))
   \<and> (map_of bnds ''b'' \<noteq> None \<and> map_of bnds ''m'' \<noteq> None \<longrightarrow>
      linear_fitter_init failing_sampler dat err (Some bnds) (Some pri) = Inl SamplerError)"
proof (intro conjI impI)
  assume "map_of bnds ''b'' = None"
  then show "linear_fitter_init sampler dat err (Some bnds) (Some pri) = Inl (KeyError ''b'')"
    by (simp add: linear_fitter_init_def fit_nested_def fit_prepare_def fit_epochs_def
        getitem_def unfitted_def)
next
  assume "map_of bnds ''b'' \<noteq> None \<and> map_of bnds ''m'' = None"
  then show "linear_fitter_init sampler dat err (Some bnds) (Some pri) = Inl (KeyError ''m'')"
    by (auto simp: linear_fitter_init_def fit_nested_def fit_prepare_def fit_epochs_def
        getitem_def unfitted_def)
next
  assume "map_of bnds ''b'' \<noteq> None \<and> map_of bnds ''m'' \<noteq> None"
  then obtain eps call where "fit_prepare (unfitted dat err bnds pri) = Inr (eps, call)"
    using fit_prepare_reaches_sampler [of "unfitted dat err bnds pri"]
    by (auto simp: unfitted_def)
  then show "linear_fitter_init failing_sampler dat err (Some bnds) (Some pri) = Inl SamplerError"
    by (simp add: linear_fitter_init_def fit_nested_def failing_sampler_def)
qed

theorem bounds_not_validated_witness:
  "map_of [(''m'', (5, 5 :: real))] ''b'' = None
   \<and> linear_fitter_init ex_sampler [0, 5, 11] [1, 1, 2] (Some [(''m'', (5, 5))]) (Some [])
       = Inl (KeyError ''b'')
   \<and> map_of [(''b'', (0, 0 :: real))] ''b'' \<noteq> None \<and> map_of [(''b'', (0, 0 :: real))] ''m'' = None
   \<and> linear_fitter_init ex_sampler [0, 5, 11] [1, 1, 2] (Some [(''b'', (0, 0))]) (Some [])
       = Inl (KeyError ''m'')
   \<and> map_of [(''m'', (6, 4 :: real)), (''b'', (1, - 1))] ''b'' \<noteq> None
   \<and> map_of [(''m'', (6, 4 :: real)), (''b'', (1, - 1))] ''m'' \<noteq> None
   \<and> linear_fitter_init failing_sampler [0, 5, 11] [1, 1, 2]
        (Some [(''m'', (6, 4)), (''b'', (1, - 1))]) (Some []) = Inl SamplerError"
  using bounds_not_validated [of "[(''m'', (5, 5))]" ex_sampler "[0, 5, 11]" "[1, 1, 2]" "[]"]
    bounds_not_validated [of "[(''b'', (0, 0))]" ex_sampler "[0, 5, 11]" "[1, 1, 2]" "[]"]
    bounds_not_validated [of "[(''m'', (6, 4)), (''b'', (1, - 1))]" ex_sampler "[0, 5, 11]" "[1, 1, 2]" "[]"]
  by simp

text \<open>
  Claim C6 as stated fails: with the degenerate bounds \<open>m = [5, 5]\<close>, \<open>b = [0, 0]\<close>
  (low equal to high) the constructor raises nothing of its own; it calls the sampler
  and completes the fit from the sampler's answer.
\<close>

theorem degenerate_bounds_accepted:
  "linear_fitter_init ex_sampler [0, 5, 11] [1, 1, 2]
      (Some [(''m'', (5, 5)), (''b'', (0, 0))]) (Some [])
   = Inr \<lparr>data = [0, 5, 11], dataerr = [1, 1, 2],
          bounds = [(''m'', (5, 5)), (''b'', (0, 0))], prior = [],
          epochs = [Fin 0, Fin 1, Fin 2],
          results = \<lparr>maximum_likelihood_point = [5, 0], posterior_stdev = [1 / 10, 1 / 5],
                     posterior_errlo = [49 / 10, - (1 / 5)], posterior_errup = [51 / 10, 1 / 5]\<rparr>,
          errors = [(''m'', 1 / 10), (''b'', 1 / 5)],
          quantiles = [(''m'', (49 / 10, 51 / 10)), (''b'', (- (1 / 5), 1 / 5))],
          parameters = [(''m'', 5), (''b'', 0)],
          model = [Fin 0, Fin 5, Fin 10], residuals = [Fin 0, Fin 0, Fin 1]\<rparr>
   \<and> linear_fitter_init failing_sampler [0, 5, 11] [1, 1, 2]
      (Some [(''m'', (5, 5)), (''b'', (0, 0))]) (Some []) = Inl SamplerError"
  by (simp add: linear_fitter_init_def fit_nested_def fit_prepare_def fit_epochs_def
      getitem_def unfitted_def ex_sampler_def failing_sampler_def np_mean2_def
      round_half_even_def upt_rec np_sub_def)

text \<open>
  Claim C7, as amended. The evaluation budget and the live-point count are the literals
  \<^verbatim>\<open>max_ncalls=4e5\<close> and \<^verbatim>\<open>min_num_live_points=420\<close> in every sampler call, and
  the fit does not depend on what the sampler would do on a call with other values.
\<close>

theorem sampler_budget_fixed:
  "(\<forall>eps call. fit_prepare self = Inr (eps, call) \<longrightarrow>
       max_ncalls call = 400000 \<and> min_num_live_points call = 420)
   \<and> fit_nested (only_default_budget sampler) self = fit_nested sampler self"
proof -
  have "max_ncalls call = 400000 \<and> min_num_live_points call = 420"
    if "fit_prepare self = Inr (eps, call)" for eps call
    using that by (auto simp: fit_prepare_def Let_def split: sum.splits)
  then show ?thesis
    by (auto simp: fit_nested_def only_default_budget_def split: sum.splits)
qed

theorem sampler_budget_fixed_witness:
  "(\<exists>eps call. fit_prepare ex_fitter = Inr (eps, call)
      \<and> max_ncalls call = 400000 \<and> min_num_live_points call = 420)
   \<and> fit_nested (only_default_budget ex_sampler) ex_fitter = fit_nested ex_sampler ex_fitter"
proof -
  obtain eps call where "fit_prepare ex_fitter = Inr (eps, call)"
    using fit_prepare_reaches_sampler [of ex_fitter]
    by (auto simp: ex_fitter_def unfitted_def)
  with sampler_budget_fixed [of ex_fitter ex_sampler] show ?thesis
    by blast
qed

text \<open>
  Claim C7 as stated fails: no data, uncertainties, bounds or prior make the fitter call
  the sampler with another budget or live-point count.
\<close>

theorem sampler_budget_not_configurable:
  "\<not> (\<exists>dat err bnds pri eps call.
        fit_prepare (unfitted dat err bnds pri) = Inr (eps, call)
        \<and> (max_ncalls call \<noteq> 400000 \<or> min_num_live_points call \<noteq> 420))"
  by (auto simp: fit_prepare_def Let_def split: sum.splits)

section \<open>The frequency range of the periodogram\<close>

lemma map_insort_key: "map f (insort_key f x xs) = insort (f x) (map f xs)"
  by (induction xs) simp_all

lemma map_sort_key: "map f (sort_key f xs) = sort (map f xs)"
  by (induction xs) (simp_all add: map_insort_key)

lemma take_argsort: "map ((!) xs) (argsort xs) = sort xs"
proof -
  let ?ps = "sort_key fst (zip xs [0..<length xs])"
  have "xs ! snd p = fst p" if "p \<in> set ?ps" for p
  proof -
    from that have "p \<in> set (zip xs [0..<length xs])"
      by simp
    then obtain i where "i < length xs" "p = (xs ! i, i)"
      by (auto simp: set_zip)
    then show ?thesis
      by simp
  qed
  then have "map ((!) xs) (map snd ?ps) = map fst ?ps"
    by simp
  also have "\<dots> = sort (map fst (zip xs [0..<length xs]))"
    by (rule map_sort_key)
  also have "\<dots> = sort xs"
    by simp
  finally show ?thesis
    by (simp add: argsort_def)
qed

lemma np_min_Min: "xs \<noteq> [] \<Longrightarrow> np_min xs = Inr (Min (set xs))"
  by (cases xs) (simp_all add: np_min_def Min.set_eq_fold [symmetric])

lemma np_max_Max: "xs \<noteq> [] \<Longrightarrow> np_max xs = Inr (Max (set xs))"
  by (cases xs) (simp_all add: np_max_def Max.set_eq_fold [symmetric])

lemma np_diff_nth: "np_diff xs = map (\<lambda>i. xs ! Suc i - xs ! i) [0..<length xs - 1]"
  by (rule nth_equalityI) (simp_all add: np_diff_def nth_tl)

lemma minper_of_spacing:
  assumes "2 \<le> length eps"
  shows "minper_of eps = Inr (max 2 (2 * min_epoch_spacing eps))"
proof -
  have set: "set (np_diff (sort eps)) = (\<lambda>i. sort eps ! Suc i - sort eps ! i) ` {i. Suc i < length eps}"
    by (auto simp: np_diff_nth)
  have "np_diff (sort eps) \<noteq> []"
    using assms by (simp add: np_diff_nth)
  then have "np_min (np_diff (sort eps)) = Inr (min_epoch_spacing eps)"
    by (simp add: np_min_Min set min_epoch_spacing_def)
  then show ?thesis
    by (simp add: minper_of_def take_argsort)
qed

lemma maxper_of_range:
  assumes "eps \<noteq> []"
  shows "maxper_of eps = Inr (epoch_range eps * 3)"
  using assms by (simp add: maxper_of_def np_min_Min np_max_Max epoch_range_def)

text \<open>
  Claim C4. With at least two epochs, both passes take the minimum testable period
  \<open>max 2 (2 * minimum spacing of the sorted epochs)\<close>; the maximum testable period is
  three times the epoch range on the first pass and the constant 50 on the second; the
  frequency limits handed to the spectral estimator are the reciprocals of these periods
  (the reciprocal of a zero range is numpy's \<^verbatim>\<open>inf\<close>).
\<close>

theorem periodogram_frequency_range:
  assumes "2 \<le> length eps"
  shows "first_pass_frequencies eps =
      Inr \<lparr>minimum_frequency = np_div (Fin 1) (Fin (epoch_range eps * 3)),
           maximum_frequency = Fin (1 / max 2 (2 * min_epoch_spacing eps)),
           nyquist_factor = 2\<rparr>
    \<and> second_pass_frequencies eps =
      Inr \<lparr>minimum_frequency = Fin (1 / 50),
           maximum_frequency = Fin (1 / max 2 (2 * min_epoch_spacing eps)),
           nyquist_factor = 2\<rparr>
    \<and> (epoch_range eps \<noteq> 0 \<longrightarrow>
         np_div (Fin 1) (Fin (epoch_range eps * 3)) = Fin (1 / (epoch_range eps * 3)))"
proof -
  have ne: "eps \<noteq> []"
    using assms by auto
  have pos: "max 2 (2 * min_epoch_spacing eps) \<noteq> 0"
    by linarith
  show ?thesis
    using pos
    by (simp add: first_pass_frequencies_def second_pass_frequencies_def
        minper_of_spacing [OF assms] maxper_of_range [OF ne])
qed

theorem periodogram_frequency_range_witness:
  "2 \<le> length [5, 0, 12, 6 :: real]
   \<and> min_epoch_spacing [5, 0, 12, 6] = 1
   \<and> epoch_range [5, 0, 12, 6] = 12
   \<and> first_pass_frequencies [5, 0, 12, 6] =
      Inr \<lparr>minimum_frequency = Fin (1 / 36), maximum_frequency = Fin (1 / 2),
           nyquist_factor = 2\<rparr>
   \<and> second_pass_frequencies [5, 0, 12, 6] =
      Inr \<lparr>minimum_frequency = Fin (1 / 50), maximum_frequency = Fin (1 / 2),
           nyquist_factor = 2\<rparr>"
proof -
  have s: "sort [5, 0, 12, 6 :: real] = [0, 5, 6, 12]"
    by simp
  have idx: "{i. Suc i < length [5, 0, 12, 6 :: real]} = {0, 1, 2}"
    by auto
  have sp: "min_epoch_spacing [5, 0, 12, 6] = 1"
    unfolding min_epoch_spacing_def s idx by simp
  have rg: "epoch_range [5, 0, 12, 6] = 12"
    by (simp add: epoch_range_def)
  show ?thesis
    using periodogram_frequency_range [of "[5, 0, 12, 6]"] sp rg
    by simp
qed

section \<open>Phase folding and binning\<close>

lemma linspace8: "np_linspace 0 1 8 = [0, 1 / 7, 2 / 7, 3 / 7, 4 / 7, 5 / 7, 6 / 7, 1]"
  by (simp add: np_linspace_def upt_rec)

lemma phase_fold_nth:
  assumes "j < length eps" and "per \<noteq> 0"
  shows "phase_fold eps per ! j = Fin (eps ! j / per - of_int \<lfloor>eps ! j / per\<rfloor>)"
  using assms by (simp add: phase_fold_def)

lemma np_mod1_cases: "np_mod1 x = NaN \<or> (\<exists>p. np_mod1 x = Fin p \<and> 0 \<le> p \<and> p < 1)"
proof (cases x)
  case (Fin a)
  have "0 \<le> a - of_int \<lfloor>a\<rfloor>" and "a - of_int \<lfloor>a\<rfloor> < 1"
    by linarith+
  with Fin show ?thesis
    by simp
qed simp_all

lemma phase_fold_cases:
  assumes "j < length (phase_fold eps per)"
  shows "phase_fold eps per ! j = NaN
    \<or> (\<exists>p. phase_fold eps per ! j = Fin p \<and> 0 \<le> p \<and> p < 1)"
  using assms np_mod1_cases [of "np_div (Fin (eps ! j)) (Fin per)"]
  by (simp add: phase_fold_def)

lemma digitize_phase_pos:
  assumes "0 \<le> p"
  shows "0 < np_digitize (Fin p) (np_linspace 0 1 8)"
  using assms by (simp add: linspace8)

lemma digitize_phase_less:
  assumes "p < 1"
  shows "np_digitize (Fin p) (np_linspace 0 1 8) < 8"
proof -
  have "length (filter (\<lambda>b. b \<le> p) [0, 1 / 7, 2 / 7, 3 / 7, 4 / 7, 5 / 7, 6 / 7]) \<le> 7"
    by (rule order_trans [OF length_filter_le]) simp
  with assms show ?thesis
    by (simp add: linspace8)
qed

lemma digitize_phase_fold_ne_0:
  assumes "j < length (phase_fold eps per)"
  shows "np_digitize (phase_fold eps per ! j) (np_linspace 0 1 8) \<noteq> 0"
proof -
  consider "phase_fold eps per ! j = NaN"
    | p where "phase_fold eps per ! j = Fin p" "0 \<le> p"
    using phase_fold_cases [OF assms] by blast
  then show ?thesis
  proof cases
    case 1
    then show ?thesis
      by (simp add: linspace8)
  next
    case 2
    then show ?thesis
      using digitize_phase_pos [of p] by simp
  qed
qed

lemma mset_np_argsort: "mset (np_argsort xs) = mset [0..<length xs]"
proof -
  have "map snd (zip xs [0..<length xs]) = [0..<length xs]"
    by simp
  then have "mset [0..<length xs] = image_mset snd (mset (zip xs [0..<length xs]))"
    by (metis mset_map)
  moreover have "mset (np_argsort xs) = image_mset snd (mset (zip xs [0..<length xs]))"
    by (simp add: np_argsort_def)
  ultimately show ?thesis
    by simp
qed

lemma set_np_argsort: "set (np_argsort xs) = {0..<length xs}"
  using mset_np_argsort [of xs] by (metis set_mset_mset set_upt)

lemma distinct_np_argsort: "distinct (np_argsort xs)"
  using mset_np_argsort [of xs] by (metis distinct_upt mset_eq_imp_distinct_iff)

lemma length_np_argsort: "length (np_argsort xs) = length xs"
  by (simp add: np_argsort_def)

lemma select_map: "select (map P xs) (map f xs) = map f (filter P xs)"
  by (induction xs) (simp_all add: select_def)

lemma count_mask: "length (filter id (map P xs)) = length (filter P xs)"
  by (induction xs) simp_all

lemma take_idx_argsort:
  assumes "length xs = length ph"
  shows "take_idx xs (np_argsort ph) = Inr (map ((!) xs) (np_argsort ph))"
  using assms by (simp add: take_idx_def list_all_iff set_np_argsort)

lemma bin_stats_empty:
  assumes "filter (\<lambda>j. np_digitize (ph ! j) bins = i) si = []"
  shows "bin_stats si bins ph resid err i = Inr (NaN, NaN)"
  using assms by (simp add: bin_stats_def Let_def count_mask comp_def)

lemma bin_stats_selected:
  assumes "length resid = length ph" and "length err = length ph"
  shows "bin_stats (np_argsort ph) bins ph resid err i =
     (let js = filter (\<lambda>j. np_digitize (ph ! j) bins = i) (np_argsort ph)
      in if 1 < length js
         then Inr (Fin (np_mean (map ((!) resid) js)), Fin (np_std (map ((!) resid) js)))
         else if length js = 1 then Inr (Fin (resid ! hd js), Fin (err ! hd js))
         else Inr (NaN, NaN))"
proof -
  let ?si = "np_argsort ph"
  let ?js = "filter (\<lambda>j. np_digitize (ph ! j) bins = i) ?si"
  have msk: "map (\<lambda>p. np_digitize p bins = i) (map ((!) ph) ?si)
      = map (\<lambda>j. np_digitize (ph ! j) bins = i) ?si"
    by simp
  have hd1: "hd (map f ?js) = f (hd ?js)" if "length ?js = 1" for f :: "nat \<Rightarrow> real"
    using that by (cases ?js) simp_all
  show ?thesis
    unfolding bin_stats_def Let_def msk count_mask
      take_idx_argsort [OF assms(1)] take_idx_argsort [OF assms(2)]
    by (simp add: hd1 select_map)
qed

lemma bin_loop_result:
  assumes "bin_loop idx si bins ph resid err (b0, s0) = Inr (b, s)"
  shows "length b = length b0 \<and> length s = length s0
    \<and> (\<forall>j. j \<notin> set idx \<longrightarrow> b ! j = b0 ! j \<and> s ! j = s0 ! j)
    \<and> (distinct idx \<longrightarrow>
        (\<forall>i\<in>set idx. i < length b0 \<and> i < length s0 \<longrightarrow>
           bin_stats si bins ph resid err i = Inr (b ! i, s ! i)))"
  using assms
proof (induction idx arbitrary: b0 s0)
  case Nil
  then show ?case
    by simp
next
  case (Cons i rest)
  from Cons.prems obtain m d where
    st: "bin_stats si bins ph resid err i = Inr (m, d)" and
    lp: "bin_loop rest si bins ph resid err (b0[i := m], s0[i := d]) = Inr (b, s)"
    by (auto split: sum.splits)
  note ih = Cons.IH [OF lp]
  have len: "length b = length b0" "length s = length s0"
    using ih by simp_all
  have keep: "b ! j = b0 ! j \<and> s ! j = s0 ! j" if "j \<notin> set (i # rest)" for j
    using ih that by simp
  have here: "bin_stats si bins ph resid err k = Inr (b ! k, s ! k)"
    if d: "distinct (i # rest)" and k: "k \<in> set (i # rest)" "k < length b0" "k < length s0" for k
  proof (cases "k = i")
    case True
    with d have "i \<notin> set rest"
      by simp
    with ih have "b ! i = b0[i := m] ! i" "s ! i = s0[i := d] ! i"
      by simp_all
    with True k st show ?thesis
      by simp
  next
    case False
    with k d have "k \<in> set rest" "distinct rest"
      by simp_all
    with ih k show ?thesis
      by simp
  qed
  from len keep here show ?case
    by blast
qed

lemma bin_loop_total:
  assumes "\<forall>i\<in>set idx. \<exists>r. bin_stats si bins ph resid err i = Inr r"
  shows "\<exists>out. bin_loop idx si bins ph resid err acc = Inr out"
  using assms
proof (induction idx arbitrary: acc)
  case Nil
  then show ?case
    by simp
next
  case (Cons i rest)
  obtain b0 s0 where acc: "acc = (b0, s0)"
    by (cases acc)
  from Cons.prems obtain m d where "bin_stats si bins ph resid err i = Inr (m, d)"
    by fastforce
  moreover from Cons have "\<exists>out. bin_loop rest si bins ph resid err (b0[i := m], s0[i := d]) = Inr out"
    by simp
  ultimately show ?case
    by (simp add: acc)
qed

lemma bin_folded_first:
  assumes "bin_folded (phase_fold eps per) resid err = Inr out"
  shows "fst out ! 0 = NaN \<and> snd out ! 0 = NaN"
proof -
  let ?ph = "phase_fold eps per"
  let ?si = "np_argsort ?ph"
  let ?bins = "np_linspace 0 1 8"
  obtain b s where out: "out = (b, s)"
    by (cases out)
  have len: "length ?bins = 8"
    by (simp add: linspace8)
  have loop: "bin_loop [0..<8] ?si ?bins ?ph resid err (replicate 8 (Fin 0), replicate 8 (Fin 0))
      = Inr (b, s)"
    using assms by (simp add: bin_folded_def Let_def len out)
  have "filter (\<lambda>j. np_digitize (?ph ! j) ?bins = 0) ?si = []"
    using digitize_phase_fold_ne_0 [of _ eps per]
    by (auto simp: filter_empty_conv set_np_argsort)
  then have "bin_stats ?si ?bins ?ph resid err 0 = Inr (NaN, NaN)"
    by (rule bin_stats_empty)
  moreover have "bin_stats ?si ?bins ?ph resid err 0 = Inr (b ! 0, s ! 0)"
    using bin_loop_result [OF loop] by simp
  ultimately show ?thesis
    by (simp add: out)
qed

text \<open>Two small passes, evaluated.\<close>

lemma phase_fold_example_pair: "phase_fold [1, 1] 2 = [Fin (1/2), Fin (1/2)]"
  by (simp add: phase_fold_def)

lemma np_argsort_example_pair: "np_argsort [Fin (1/2), Fin (1/2)] = [0, 1]"
  by (simp add: np_argsort_def upt_rec)

lemma first_pass_bins_example_pair: "first_pass_bins [1, 1] 2 [1, 3] [1 / 10, 1 / 10]
   = Inr ([NaN, NaN, NaN, NaN, Fin 2, NaN, NaN, NaN], [NaN, NaN, NaN, NaN, Fin 1, NaN, NaN, NaN])"
  by (simp add: first_pass_bins_def bin_folded_def phase_fold_example_pair np_argsort_example_pair linspace8 bin_stats_def
      take_idx_def select_def np_mean_def np_std_def Let_def upt_rec)

lemma sample_std_example_pair: "sample_std [1, 3] = sqrt 2"
  by (simp add: sample_std_def np_mean_def)

lemma phase_fold_example_triple: "phase_fold [1, 21, 18] 20 = [Fin (1/20), Fin (1/20), Fin (9/10)]"
  by (simp add: phase_fold_def)

lemma np_argsort_example_triple: "np_argsort [Fin (1/20), Fin (1/20), Fin (9/10)] = [0, 1, 2]"
  by (simp add: np_argsort_def upt_rec)

lemma first_pass_bins_example_triple: "first_pass_bins [1, 21, 18] 20 [1, 3, 5] [1 / 10, 1 / 5, 3 / 10]
   = Inr ([NaN, Fin 2, NaN, NaN, NaN, NaN, NaN, Fin 5], [NaN, Fin 1, NaN, NaN, NaN, NaN, NaN, Fin (3 / 10)])"
  by (simp add: first_pass_bins_def bin_folded_def phase_fold_example_triple np_argsort_example_triple linspace8 bin_stats_def
      take_idx_def select_def np_mean_def np_std_def Let_def upt_rec)

lemma bin_members_example_pair: "bin_members (phase_fold [1, 1] 2) 4 = {0, 1}"
  by (auto simp: bin_members_def phase_fold_example_pair linspace8 less_Suc_eq)

text \<open>
  Claim C10. In both binning passes no point ever falls into the bin of index 0: a
  folded phase is in \<open>[0, 1)\<close> (or \<^verbatim>\<open>nan\<close> for a zero period), and
  \<^verbatim>\<open>np.digitize\<close> against edges that start at 0 gives index 0 only below 0. So, whenever
  a pass returns its binned arrays, their first entries are both \<^verbatim>\<open>nan\<close>.
\<close>

theorem first_bin_always_nan:
  "bin_members (phase_fold eps per) 0 = {}
   \<and> bin_members (phase_fold eps per2) 0 = {}
   \<and> (\<forall>out. first_pass_bins eps per resid err = Inr out \<longrightarrow>
        fst out ! 0 = NaN \<and> snd out ! 0 = NaN)
   \<and> (\<forall>out. second_pass_bins eps per2 detrended err = Inr out \<longrightarrow>
        fst out ! 0 = NaN \<and> snd out ! 0 = NaN)"
  using digitize_phase_fold_ne_0 [of _ eps per] digitize_phase_fold_ne_0 [of _ eps per2]
    bin_folded_first [of eps per resid err] bin_folded_first [of eps per2 detrended err]
  by (simp add: bin_members_def first_pass_bins_def second_pass_bins_def)

theorem first_bin_always_nan_witness:
  "first_pass_bins [1, 21, 18] 20 [1, 3, 5] [1 / 10, 1 / 5, 3 / 10]
   = Inr ([NaN, Fin 2, NaN, NaN, NaN, NaN, NaN, Fin 5],
          [NaN, Fin 1, NaN, NaN, NaN, NaN, NaN, Fin (3 / 10)])
   \<and> fst ([NaN, Fin 2, NaN, NaN, NaN, NaN, NaN, Fin 5],
          [NaN, Fin 1, NaN, NaN, NaN, NaN, NaN, Fin (3 / 10)]) ! 0 = NaN
   \<and> bin_members (phase_fold [1, 21, 18] 20) 0 = {}"
  using first_bin_always_nan [of "[1, 21, 18]" 20 20 "[1, 3, 5]" "[1 / 10, 1 / 5, 3 / 10]" "[1, 3, 5]"] first_pass_bins_example_triple
  by simp

lemma selected_members:
  "set (filter (\<lambda>j. np_digitize (ph ! j) (np_linspace 0 1 8) = i) (np_argsort ph))
     = bin_members ph i"
  by (auto simp: bin_members_def set_np_argsort)

lemma selected_distinct:
  "distinct (filter (\<lambda>j. np_digitize (ph ! j) bins = i) (np_argsort ph))"
  by (simp add: distinct_np_argsort)

lemma np_mean_selected:
  assumes "distinct js"
  shows "np_mean (map ((!) resid) js) = bin_mean resid (set js)"
  using assms
  by (simp add: np_mean_def bin_mean_def sum_list_distinct_conv_sum_set distinct_card)

lemma np_std_selected:
  assumes "distinct js"
  shows "np_std (map ((!) resid) js) = bin_pop_std resid (set js)"
proof -
  have "np_mean (map (\<lambda>x. \<bar>x - bin_mean resid (set js)\<bar>\<^sup>2) (map ((!) resid) js))
      = (\<Sum>j\<in>set js. (resid ! j - bin_mean resid (set js))\<^sup>2) / real (card (set js))"
    using assms
    by (simp add: np_mean_def comp_def sum_list_distinct_conv_sum_set distinct_card)
  then show ?thesis
    by (simp add: np_std_def bin_pop_std_def np_mean_selected [OF assms])
qed

lemma bin_stats_summary:
  assumes "length resid = length ph" and "length err = length ph"
  defines "B \<equiv> bin_members ph"
  shows "bin_stats (np_argsort ph) (np_linspace 0 1 8) ph resid err i =
     (if 2 \<le> card (B i) then Inr (Fin (bin_mean resid (B i)), Fin (bin_pop_std resid (B i)))
      else if card (B i) = 1 then Inr (Fin (resid ! the_elem (B i)), Fin (err ! the_elem (B i)))
      else Inr (NaN, NaN))"
proof -
  let ?js = "filter (\<lambda>j. np_digitize (ph ! j) (np_linspace 0 1 8) = i) (np_argsort ph)"
  have set: "set ?js = B i"
    unfolding B_def by (rule selected_members)
  have dist: "distinct ?js"
    by (rule selected_distinct)
  have card: "length ?js = card (B i)"
    using dist set by (metis distinct_card)
  have one: "hd ?js = the_elem (B i)" if "card (B i) = 1"
  proof -
    from that card obtain j where "?js = [j]"
      by (cases ?js) auto
    with set [symmetric] show ?thesis
      by simp
  qed
  have m: "np_mean (map ((!) resid) ?js) = bin_mean resid (B i)"
    unfolding set [symmetric] by (rule np_mean_selected [OF dist])
  have sd: "np_std (map ((!) resid) ?js) = bin_pop_std resid (B i)"
    unfolding set [symmetric] by (rule np_std_selected [OF dist])
  show ?thesis
    unfolding bin_stats_selected [OF assms(1,2)] Let_def m sd card
    by (auto simp: one)
qed

lemma bin_folded_summary:
  assumes "length resid = length ph" and "length err = length ph"
  shows "\<exists>out. bin_folded ph resid err = Inr out \<and> bin_summary ph resid err out"
proof -
  let ?si = "np_argsort ph"
  let ?bins = "np_linspace 0 1 8"
  let ?acc = "(replicate 8 (Fin 0), replicate 8 (Fin 0))"
  have len: "length ?bins = 8"
    by (simp add: linspace8)
  have "\<forall>i\<in>set [0..<8]. \<exists>r. bin_stats ?si ?bins ph resid err i = Inr r"
    by (simp add: bin_stats_summary [OF assms])
  then obtain out where loop: "bin_loop [0..<8] ?si ?bins ph resid err ?acc = Inr out"
    using bin_loop_total by blast
  obtain b s where out: "out = (b, s)"
    by (cases out)
  note res = bin_loop_result [OF loop [unfolded out]]
  have lens: "length b = 8" "length s = 8"
    using res by simp_all
  have st: "bin_stats ?si ?bins ph resid err i = Inr (b ! i, s ! i)" if "i < 8" for i
    using res that by simp
  have "bin_summary ph resid err (b, s)"
    unfolding bin_summary_def
  proof (intro conjI allI impI)
    show "length (fst (b, s)) = 8" "length (snd (b, s)) = 8"
      using lens by simp_all
  next
    fix i :: nat
    assume i: "i < 8" and e: "bin_members ph i = {}"
    with st [OF i] show "fst (b, s) ! i = NaN" "snd (b, s) ! i = NaN"
      by (simp_all add: bin_stats_summary [OF assms])
  next
    fix i j :: nat
    assume i: "i < 8" and e: "bin_members ph i = {j}"
    with st [OF i] show "fst (b, s) ! i = Fin (resid ! j)" "snd (b, s) ! i = Fin (err ! j)"
      by (simp_all add: bin_stats_summary [OF assms])
  next
    fix i :: nat
    assume i: "i < 8" and e: "2 \<le> card (bin_members ph i)"
    with st [OF i] show "fst (b, s) ! i = Fin (bin_mean resid (bin_members ph i))"
      "snd (b, s) ! i = Fin (bin_pop_std resid (bin_members ph i))"
      by (simp_all add: bin_stats_summary [OF assms])
  qed
  moreover have "bin_folded ph resid err = Inr (b, s)"
    using loop by (simp add: bin_folded_def Let_def len out)
  ultimately show ?thesis
    by blast
qed

text \<open>
  Claim C5, as amended. In each pass the residuals are folded to the phase
  \<open>epoch / P mod 1\<close> in \<open>[0, 1)\<close> and every point is assigned to one of eight output
  entries; an entry with no point holds \<open>(NaN, NaN)\<close>, an entry with exactly one point
  holds that residual and that point's own uncertainty, and an entry with two or more
  points holds the mean and the standard deviation with divisor \<open>n\<close> (the population
  form) of its residuals. Stated for non-zero periods and arrays of one length.
\<close>

theorem phase_bin_statistics:
  assumes "per \<noteq> 0" and "per2 \<noteq> 0"
    and "length resid = length eps" and "length detrended = length eps"
    and "length err = length eps"
  shows "(\<forall>j<length eps. \<forall>P\<in>{per, per2}. \<exists>p.
            phase_fold eps P ! j = Fin p \<and> p = eps ! j / P - of_int \<lfloor>eps ! j / P\<rfloor>
            \<and> 0 \<le> p \<and> p < 1 \<and> (\<exists>i<8. j \<in> bin_members (phase_fold eps P) i))
    \<and> (\<exists>out. first_pass_bins eps per resid err = Inr out
          \<and> bin_summary (phase_fold eps per) resid err out)
    \<and> (\<exists>out. second_pass_bins eps per2 detrended err = Inr out
          \<and> bin_summary (phase_fold eps per2) detrended err out)"
proof (intro conjI allI impI ballI)
  fix j P
  assume j: "j < length eps" and "P \<in> {per, per2}"
  then have "P \<noteq> 0"
    using assms(1,2) by auto
  then have ph: "phase_fold eps P ! j = Fin (eps ! j / P - of_int \<lfloor>eps ! j / P\<rfloor>)"
    using j by (simp add: phase_fold_nth)
  moreover have "0 \<le> eps ! j / P - of_int \<lfloor>eps ! j / P\<rfloor>"
    and lt: "eps ! j / P - of_int \<lfloor>eps ! j / P\<rfloor> < 1"
    by linarith+
  moreover have "\<exists>i<8. j \<in> bin_members (phase_fold eps P) i"
    using digitize_phase_less [OF lt] j ph
    by (simp add: bin_members_def phase_fold_def)
  ultimately show "\<exists>p. phase_fold eps P ! j = Fin p
      \<and> p = eps ! j / P - of_int \<lfloor>eps ! j / P\<rfloor> \<and> 0 \<le> p \<and> p < 1
      \<and> (\<exists>i<8. j \<in> bin_members (phase_fold eps P) i)"
    by simp
next
  show "\<exists>out. first_pass_bins eps per resid err = Inr out
      \<and> bin_summary (phase_fold eps per) resid err out"
    using bin_folded_summary [of resid "phase_fold eps per" err] assms(3,5)
    by (simp add: first_pass_bins_def phase_fold_def)
next
  show "\<exists>out. second_pass_bins eps per2 detrended err = Inr out
      \<and> bin_summary (phase_fold eps per2) detrended err out"
    using bin_folded_summary [of detrended "phase_fold eps per2" err] assms(4,5)
    by (simp add: second_pass_bins_def phase_fold_def)
qed

theorem phase_bin_statistics_witness:
  "(20::real) \<noteq> 0 \<and> (4::real) \<noteq> 0
   \<and> length [1, 3, 5 :: real] = length [1, 21, 18 :: real]
   \<and> length [2, 4, 6 :: real] = length [1, 21, 18 :: real]
   \<and> length [1 / 10, 1 / 5, 3 / 10 :: real] = length [1, 21, 18 :: real]
   \<and> (\<exists>out. first_pass_bins [1, 21, 18] 20 [1, 3, 5] [1 / 10, 1 / 5, 3 / 10] = Inr out
          \<and> bin_summary (phase_fold [1, 21, 18] 20) [1, 3, 5] [1 / 10, 1 / 5, 3 / 10] out)
   \<and> (\<exists>out. second_pass_bins [1, 21, 18] 4 [2, 4, 6] [1 / 10, 1 / 5, 3 / 10] = Inr out
          \<and> bin_summary (phase_fold [1, 21, 18] 4) [2, 4, 6] [1 / 10, 1 / 5, 3 / 10] out)"
  using phase_bin_statistics [of 20 4 "[1, 3, 5]" "[1, 21, 18]" "[2, 4, 6]" "[1 / 10, 1 / 5, 3 / 10]"]
  by simp

text \<open>
  Claim C5 as stated fails: two points with the residuals 1 and 3 share a bin; the
  code reports the deviation 1 for it, and the sample standard deviation (divisor
  \<open>n - 1\<close>) of 1 and 3 is \<open>sqrt 2\<close>.
\<close>

theorem bin_std_is_not_sample_std:
  "bin_members (phase_fold [1, 1] 2) 4 = {0, 1}
   \<and> first_pass_bins [1, 1] 2 [1, 3] [1 / 10, 1 / 10]
     = Inr ([NaN, NaN, NaN, NaN, Fin 2, NaN, NaN, NaN],
            [NaN, NaN, NaN, NaN, Fin 1, NaN, NaN, NaN])
   \<and> sample_std [1, 3] = sqrt 2
   \<and> Fin 1 \<noteq> Fin (sample_std [1, 3])"
  using bin_members_example_pair first_pass_bins_example_pair sample_std_example_pair by simp

end
